theory Spec2Isabelle
  imports Complex_Main
begin

section \<open>The browser environment\<close>

text \<open>
  A \<^verbatim>\<open>File\<close> as the page reads it: \<^verbatim>\<open>file.name\<close>, \<^verbatim>\<open>file.size\<close>, \<^verbatim>\<open>file.type\<close>.
\<close>

record js_file =
  file_name :: string
  file_size :: nat
  file_type :: string

text \<open>
  The document's store of object URLs. \<^verbatim>\<open>URL.createObjectURL\<close> registers a fresh URL (here the
  number of the allocation) that stays live until \<^verbatim>\<open>URL.revokeObjectURL\<close> is called on it.
\<close>

record url_store =
  issued :: nat
  live :: "nat list"

definition createObjectURL :: "url_store \<Rightarrow> nat \<times> url_store" where
  "createObjectURL st = (issued st, st\<lparr>issued := Suc (issued st), live := live st @ [issued st]\<rparr>)"

definition revokeObjectURL :: "nat \<Rightarrow> url_store \<Rightarrow> url_store" where
  "revokeObjectURL u st = st\<lparr>live := filter (\<lambda>v. v \<noteq> u) (live st)\<rparr>"

text \<open>\<^verbatim>\<open>xs.join(sep)\<close>.\<close>

fun join :: "string \<Rightarrow> string list \<Rightarrow> string" where
  "join sep [] = []"
| "join sep [x] = x"
| "join sep (x # y # ys) = x @ sep @ join sep (y # ys)"

section \<open>Numbers\<close>

text \<open>
  The numbers of the page are IEEE 754 doubles. A finite double is kept as the rational it
  denotes; minus zero is not told apart from zero (no computation here divides by a zero it
  has computed).
\<close>

datatype js_number = Num rat | NaN | Infinity | NegInfinity

text \<open>The number of binary digits of a positive whole number.\<close>

function bits :: "int \<Rightarrow> nat" where
  "bits n = (if n \<le> 0 then 0 else Suc (bits (n div 2)))"
  by pat_completeness auto
termination
  by (relation "measure nat") auto

declare bits.simps [simp del]

definition scale2 :: "rat \<Rightarrow> int \<Rightarrow> rat" where
  "scale2 q k = (if 0 \<le> k then q * 2 ^ nat k else q / 2 ^ nat (- k))"

text \<open>For \<open>q > 0\<close>, the \<open>e\<close> with \<open>2 ^ e \<le> q < 2 ^ (e + 1)\<close>.\<close>

definition binary_exponent :: "rat \<Rightarrow> int" where
  "binary_exponent q =
     (if 1 \<le> q then int (bits \<lfloor>q\<rfloor>) - 1 else - int (bits (\<lceil>1 / q\<rceil> - 1)))"

text \<open>The nearest whole number, a tie going to the even one.\<close>

definition ties_even :: "rat \<Rightarrow> int" where
  "ties_even m =
     (let f = \<lfloor>m\<rfloor>; r = m - of_int f
      in if r < 1 / 2 then f else if 1 / 2 < r then f + 1 else if even f then f else f + 1)"

text \<open>
  The double nearest to a positive rational: 53 significant bits, ties to even, the exponent
  not below that of the subnormal numbers, and \<^verbatim>\<open>Infinity\<close> from \<open>2 ^ 1024\<close> on.
\<close>

definition round_pos :: "rat \<Rightarrow> js_number" where
  "round_pos q =
     (let e = max (binary_exponent q) (- 1022);
          r = scale2 (of_int (ties_even (scale2 q (52 - e)))) (e - 52)
      in if 2 ^ 1024 \<le> r then Infinity else Num r)"

definition to_double :: "rat \<Rightarrow> js_number" where
  "to_double q =
     (if q = 0 then Num 0
      else if 0 < q then round_pos q
      else (case round_pos (- q) of Num r \<Rightarrow> Num (- r) | _ \<Rightarrow> NegInfinity))"

text \<open>\<^verbatim>\<open>x / y\<close> and \<^verbatim>\<open>x * y\<close> on doubles: the exact result, rounded.\<close>

fun js_div :: "js_number \<Rightarrow> js_number \<Rightarrow> js_number" where
  "js_div (Num a) (Num b) =
     (if b = 0 then (if a = 0 then NaN else if 0 < a then Infinity else NegInfinity)
      else to_double (a / b))"
| "js_div NaN y = NaN"
| "js_div x NaN = NaN"
| "js_div (Num a) y = Num 0"
| "js_div Infinity (Num b) = (if 0 \<le> b then Infinity else NegInfinity)"
| "js_div NegInfinity (Num b) = (if 0 \<le> b then NegInfinity else Infinity)"
| "js_div x y = NaN"

fun js_mul :: "js_number \<Rightarrow> js_number \<Rightarrow> js_number" where
  "js_mul (Num a) (Num b) = to_double (a * b)"
| "js_mul NaN y = NaN"
| "js_mul x NaN = NaN"
| "js_mul (Num a) Infinity = (if a = 0 then NaN else if 0 < a then Infinity else NegInfinity)"
| "js_mul (Num a) NegInfinity = (if a = 0 then NaN else if 0 < a then NegInfinity else Infinity)"
| "js_mul Infinity (Num b) = (if b = 0 then NaN else if 0 < b then Infinity else NegInfinity)"
| "js_mul NegInfinity (Num b) = (if b = 0 then NaN else if 0 < b then NegInfinity else Infinity)"
| "js_mul Infinity Infinity = Infinity"
| "js_mul NegInfinity NegInfinity = Infinity"
| "js_mul x y = NegInfinity"

text \<open>
  \<^verbatim>\<open>Math.round\<close>: the whole number nearest to a double, a half going upwards. The result is
  exact, every double of \<open>2 ^ 52\<close> or more being whole.
\<close>

fun Math_round :: "js_number \<Rightarrow> js_number" where
  "Math_round (Num x) = Num (of_int \<lfloor>x + 1 / 2\<rfloor>)"
| "Math_round x = x"

text \<open>A whole number in decimal.\<close>

fun show_nat :: "nat \<Rightarrow> string" where
  "show_nat n =
     (if n < 10 then [''0123456789'' ! n] else show_nat (n div 10) @ [''0123456789'' ! (n mod 10)])"

declare show_nat.simps [simp del]

definition scale10 :: "rat \<Rightarrow> int \<Rightarrow> rat" where
  "scale10 q k = (if 0 \<le> k then q * 10 ^ nat k else q / 10 ^ nat (- k))"

text \<open>For \<open>x > 0\<close>, the \<open>n\<close> with \<open>10 ^ (n - 1) \<le> x < 10 ^ n\<close>.\<close>

definition decimal_exponent :: "rat \<Rightarrow> int" where
  "decimal_exponent x =
     (if 1 \<le> x then int (length (show_nat (nat \<lfloor>x\<rfloor>)))
      else 1 - int (length (show_nat (nat (\<lceil>1 / x\<rceil> - 1)))))"

text \<open>
  \<^verbatim>\<open>Number.prototype.toString\<close> prints the shortest digits \<open>s\<close> for which \<open>s * 10 ^ (n - k)\<close>,
  with \<open>k\<close> the number of digits, is read back as the same double. \<open>candidate x n k\<close> is such an
  \<open>s\<close> of \<open>k\<close> digits, the nearer one if there are two; \<open>shortest\<close> tries \<open>k = 1, 2, ...\<close>, and
  seventeen digits are enough for every double.
\<close>

definition candidate :: "rat \<Rightarrow> int \<Rightarrow> nat \<Rightarrow> int option" where
  "candidate x n k =
     (let lo = \<lfloor>scale10 x (int k - n)\<rfloor>;
          hi = lo + 1;
          val = (\<lambda>s. scale10 (of_int s) (n - int k));
          ok = (\<lambda>s. to_double (val s) = Num x)
      in if ok lo \<and> ok hi then (if x - val lo \<le> val hi - x then Some lo else Some hi)
         else if ok lo then Some lo
         else if ok hi then Some hi
         else None)"

fun shortest :: "rat \<Rightarrow> int \<Rightarrow> nat \<Rightarrow> nat \<Rightarrow> int \<times> nat" where
  "shortest x n 0 k = (\<lfloor>scale10 x (int k - n)\<rfloor>, k)"
| "shortest x n (Suc fuel) k =
     (case candidate x n k of Some s \<Rightarrow> (s, k) | None \<Rightarrow> shortest x n fuel (Suc k))"

definition strip_zeros :: "string \<Rightarrow> string" where
  "strip_zeros ds = rev (dropWhile (\<lambda>c. c = CHR ''0'') (rev ds))"

text \<open>
  The text of a positive double: plain digits up to 21 places before the point and 6 zeros
  after it, the exponent form beyond.
\<close>

definition number_format :: "rat \<Rightarrow> string" where
  "number_format x =
     (let n0 = decimal_exponent x;
          (s, k0) = shortest x n0 17 1;
          ds = show_nat (nat s);
          n = n0 + (int (length ds) - int k0);
          sd = strip_zeros ds;
          k = int (length sd)
      in if k \<le> n \<and> n \<le> 21 then sd @ replicate (nat (n - k)) CHR ''0''
         else if 0 < n \<and> n \<le> 21 then take (nat n) sd @ ''.'' @ drop (nat n) sd
         else if - 6 < n \<and> n \<le> 0 then ''0.'' @ replicate (nat (- n)) CHR ''0'' @ sd
         else let e = n - 1;
                  es = (if e < 0 then ''-'' else ''+'') @ show_nat (nat \<bar>e\<bar>)
              in if k = 1 then sd @ ''e'' @ es
                 else take 1 sd @ ''.'' @ drop 1 sd @ ''e'' @ es)"

text \<open>The number as a template string, or a React child, prints it.\<close>

fun toString :: "js_number \<Rightarrow> string" where
  "toString (Num x) =
     (if x = 0 then ''0'' else if x < 0 then ''-'' @ number_format (- x) else number_format x)"
| "toString NaN = ''NaN''"
| "toString Infinity = ''Infinity''"
| "toString NegInfinity = ''-Infinity''"

section \<open>Values of a response\<close>

text \<open>
  A value parsed from a JSON body. A number is kept as the rational its literal denotes; the
  parser turns it into the nearest double. A value that may also be \<^verbatim>\<open>undefined\<close> is a
  \<open>json option\<close>.
\<close>

datatype json =
  JNull | JBool bool | JNum rat | JStr string | JArr "json list" | JObj "(string \<times> json) list"

fun truthy :: "json \<Rightarrow> bool" where
  "truthy JNull = False"
| "truthy (JBool b) = b"
| "truthy (JNum q) = (to_double q \<noteq> Num 0)"
| "truthy (JStr s) = (s \<noteq> [])"
| "truthy (JArr xs) = True"
| "truthy (JObj kvs) = True"


definition or_else :: "json option \<Rightarrow> json \<Rightarrow> json" where
  "or_else a b = (case a of None \<Rightarrow> b | Some v \<Rightarrow> if truthy v then v else b)"


text \<open>The value as a template string prints it.\<close>

fun json_toString :: "json \<Rightarrow> string" where
  "json_toString JNull = ''null''"
| "json_toString (JBool b) = (if b then ''true'' else ''false'')"
| "json_toString (JNum q) = toString (to_double q)"
| "json_toString (JStr s) = s"
| "json_toString (JArr xs) = join '','' (map (\<lambda>x. if x = JNull then [] else json_toString x) xs)"
| "json_toString (JObj kvs) = ''[object Object]''"

section \<open>Strings and lists\<close>

text \<open>
  \<^verbatim>\<open>c.toUpperCase()\<close> and \<^verbatim>\<open>c.toLowerCase()\<close> on one character, for the ASCII letters (the page
  capitalises the first letters of its four category names only, and file names and types are
  lowered to be compared with ASCII patterns).
\<close>

definition toUpperCase :: "char \<Rightarrow> char" where
  "toUpperCase c =
     (case map_of (zip ''abcdefghijklmnopqrstuvwxyz'' ''ABCDEFGHIJKLMNOPQRSTUVWXYZ'') c of
        None \<Rightarrow> c
      | Some u \<Rightarrow> u)"

definition toLowerCase :: "char \<Rightarrow> char" where
  "toLowerCase c =
     (case map_of (zip ''ABCDEFGHIJKLMNOPQRSTUVWXYZ'' ''abcdefghijklmnopqrstuvwxyz'') c of
        None \<Rightarrow> c
      | Some l \<Rightarrow> l)"

text \<open>\<^verbatim>\<open>s.endsWith(t)\<close>.\<close>

definition endsWith :: "string \<Rightarrow> string \<Rightarrow> bool" where
  "endsWith s t = (length t \<le> length s \<and> drop (length s - length t) s = t)"

text \<open>\<^verbatim>\<open>cat.charAt(0).toUpperCase() + cat.slice(1)\<close>; on the empty string both parts are empty.\<close>

definition capitalize :: "string \<Rightarrow> string" where
  "capitalize cat = map toUpperCase (take 1 cat) @ drop 1 cat"

text \<open>\<^verbatim>\<open>[...new Set(xs)]\<close>: the distinct elements, each at its first occurrence.\<close>

definition spread_Set :: "'a list \<Rightarrow> 'a list" where
  "spread_Set xs = rev (remdups (rev xs))"

section \<open>The image upload component\<close>

record image_category =
  cat_value :: string
  label :: string
  icon :: string
  color :: string

definition imageCategories :: "image_category list" where
  "imageCategories =
     [\<lparr>cat_value = ''front'', label = ''Front View'', icon = ''bi-arrow-up-circle'', color = ''primary''\<rparr>,
      \<lparr>cat_value = ''rear'', label = ''Rear View'', icon = ''bi-arrow-down-circle'', color = ''success''\<rparr>,
      \<lparr>cat_value = ''back'', label = ''Back View'', icon = ''bi-arrow-left-circle'', color = ''warning''\<rparr>,
      \<lparr>cat_value = ''top'', label = ''Top View'', icon = ''bi-circle'', color = ''info''\<rparr>]"

text \<open>The object \<^verbatim>\<open>onDrop\<close> builds for each accepted file.\<close>

record file_object =
  file_f :: js_file
  preview :: nat
  name :: string
  size_f :: nat
  type_f :: string
  status_f :: string
  id_f :: string
  category :: string
  categoryLabel :: "string option"

text \<open>\<^verbatim>\<open>imageCategories.find(cat => cat.value === c)?.label\<close>.\<close>

definition find_label :: "string \<Rightarrow> string option" where
  "find_label c = map_option label (find (\<lambda>cat. cat_value cat = c) imageCategories)"

text \<open>
  The \<^verbatim>\<open>acceptedFiles.map(...)\<close> of \<^verbatim>\<open>onDrop\<close>. Each file gets a preview URL from the store and
  an id from \<^verbatim>\<open>Math.random()\<close>; \<open>rnd k\<close> is the id drawn for the \<open>k\<close>-th file of the drop.
\<close>

fun createFileObjects ::
  "string \<Rightarrow> (nat \<Rightarrow> string) \<Rightarrow> nat \<Rightarrow> url_store \<Rightarrow> js_file list \<Rightarrow> file_object list \<times> url_store" where
  "createFileObjects selectedCategory rnd k st [] = ([], st)"
| "createFileObjects selectedCategory rnd k st (f # fs) =
     (let (u, st') = createObjectURL st;
          (objs, st'') = createFileObjects selectedCategory rnd (Suc k) st' fs
      in (\<lparr>file_f = f, preview = u, name = file_name f, size_f = file_size f, type_f = file_type f,
           status_f = ''ready'', id_f = rnd k, category = selectedCategory,
           categoryLabel = find_label selectedCategory\<rparr> # objs, st''))"

text \<open>
  \<^verbatim>\<open>onDrop\<close>: the new objects are appended to the previous list,
  \<^verbatim>\<open>setFiles(prev => [...prev, ...newFiles])\<close>, whatever its length.
\<close>

definition onDrop ::
  "string \<Rightarrow> (nat \<Rightarrow> string) \<Rightarrow> js_file list \<Rightarrow> file_object list \<times> url_store \<Rightarrow> file_object list \<times> url_store" where
  "onDrop selectedCategory rnd acceptedFiles = (\<lambda>(prev, st).
     (let (newFiles, st') = createFileObjects selectedCategory rnd 0 st acceptedFiles
      in (prev @ newFiles, st')))"

text \<open>\<^verbatim>\<open>prev.filter((_, i) => i !== index)\<close>.\<close>

definition removeFile :: "nat \<Rightarrow> file_object list \<Rightarrow> file_object list" where
  "removeFile index prev = map snd (filter (\<lambda>(i, _). i \<noteq> index) (enumerate 0 prev))"

text \<open>\<^verbatim>\<open>prev.map((file, i) => i === index ? {...file, category, categoryLabel} : file)\<close>.\<close>

definition updateFileCategory :: "nat \<Rightarrow> string \<Rightarrow> file_object list \<Rightarrow> file_object list" where
  "updateFileCategory index newCategory prev =
     map (\<lambda>(i, f). if i = index
                     then f\<lparr>category := newCategory, categoryLabel := find_label newCategory\<rparr>
                     else f)
         (enumerate 0 prev)"

text \<open>
  \<^verbatim>\<open>getCategoryStats\<close>: the \<^verbatim>\<open>reduce\<close> over \<^verbatim>\<open>imageCategories\<close> that stores, under each category's
  value, the number of files of that category.
\<close>

definition getCategoryStats :: "file_object list \<Rightarrow> (string \<rightharpoonup> nat)" where
  "getCategoryStats fs =
     foldl (\<lambda>acc cat. acc(cat_value cat \<mapsto> length (filter (\<lambda>f. category f = cat_value cat) fs)))
           Map.empty imageCategories"

text \<open>
  The count the category radios and the coverage badges read,
  \<^verbatim>\<open>getCategoryStats()[category.value] || 0\<close>; the radios show it only when it is above 0.
\<close>

definition categoryCount :: "file_object list \<Rightarrow> string \<Rightarrow> nat" where
  "categoryCount fs c = (case getCategoryStats fs c of None \<Rightarrow> 0 | Some n \<Rightarrow> n)"

text \<open>\<^verbatim>\<open>imageCategories.filter(cat => stats[cat.value] === 0)\<close>.\<close>

definition getMissingCategories :: "file_object list \<Rightarrow> image_category list" where
  "getMissingCategories fs =
     (let stats = getCategoryStats fs
      in filter (\<lambda>cat. stats (cat_value cat) = Some 0) imageCategories)"

text \<open>
  The gate of \<^verbatim>\<open>useDropzone\<close> (the react-dropzone library) in front of \<^verbatim>\<open>onDrop\<close>, as the
  component configures it (\<^verbatim>\<open>accept\<close>, \<^verbatim>\<open>maxFiles\<close>, \<^verbatim>\<open>multiple: true\<close>): each file of one drop is
  tested against the accept attribute, and a drop with more than \<^verbatim>\<open>maxFiles\<close> accepted files is
  rejected whole. The gate sees one drop; the list of files already staged is not passed to it.
  \<open>accepts\<close> is the library's test of one file against the accept attribute.
\<close>

definition useDropzone :: "(js_file \<Rightarrow> bool) \<Rightarrow> nat \<Rightarrow> js_file list \<Rightarrow> js_file list" where
  "useDropzone accepts maxFiles dropped =
     (let acceptedFiles = filter accepts dropped
      in if 1 \<le> maxFiles \<and> maxFiles < length acceptedFiles then [] else acceptedFiles)"

text \<open>
  The test for the accept map of the component,
  \<^verbatim>\<open>{'image/*': ['.jpeg', '.jpg', '.png', '.gif', '.bmp', '.webp']}\<close>: the library accepts a file
  whose lowered type has \<^verbatim>\<open>image\<close> before its first slash, or whose lowered name ends with one
  of the extensions (whatever its type), or whose type is \<^verbatim>\<open>application/x-moz-file\<close>.
\<close>

definition accept_image :: "js_file \<Rightarrow> bool" where
  "accept_image f =
     (file_type f = ''application/x-moz-file'' \<or>
      takeWhile (\<lambda>c. c \<noteq> CHR ''/'') (map toLowerCase (file_type f)) = ''image'' \<or>
      list_ex (endsWith (map toLowerCase (file_name f)))
        [''.jpeg'', ''.jpg'', ''.png'', ''.gif'', ''.bmp'', ''.webp''])"

section \<open>Effects of a page\<close>

datatype form_value = TextPart string | FilePart js_file

datatype request = Get string | Post string "(string \<times> form_value) list"

text \<open>A toast and the argument it was raised with.\<close>

datatype toast = ToastSuccess string | ToastError json

record effects =
  toasts :: "toast list"
  requests :: "request list"
  navigations :: "string list"

text \<open>
  A rejected axios call: \<open>detail\<close> is \<^verbatim>\<open>error.response?.data?.detail\<close> (absent when the response,
  its data or the field is missing), \<open>message\<close> is \<^verbatim>\<open>error.message\<close>.
\<close>

record axios_error =
  detail :: "json option"
  message :: string

section \<open>The new claim page\<close>

text \<open>
  The state of \<^verbatim>\<open>NewClaim\<close> together with its \<^verbatim>\<open>ImageUpload\<close> child (\<open>selectedCategory\<close>) and the
  document's object URLs. \<^verbatim>\<open>response.data.id\<close> is kept as the text the template string prints.
\<close>

record new_claim = effects +
  formData :: "string \<rightharpoonup> string"
  files :: "file_object list"
  loading :: bool
  error :: json
  selectedCategory :: string
  blob_urls :: url_store

record claim_summary =
  claim_id :: string

definition initial_new_claim :: new_claim where
  "initial_new_claim =
     \<lparr>toasts = [], requests = [], navigations = [],
      formData = [''policy_number'' \<mapsto> [], ''accident_date'' \<mapsto> [], ''location'' \<mapsto> [],
                  ''description'' \<mapsto> []],
      files = [], loading = False, error = JStr [], selectedCategory = ''front'',
      blob_urls = \<lparr>issued = 0, live = []\<rparr>\<rparr>"

text \<open>\<^verbatim>\<open>maxFiles={12}\<close>, the property \<^verbatim>\<open>NewClaim\<close> passes to \<^verbatim>\<open>ImageUpload\<close>.\<close>

definition maxFiles :: nat where
  "maxFiles = 12"

definition requiredCategories :: "string list" where
  "requiredCategories = [''front'', ''rear'', ''back'', ''top'']"

definition validateImages :: "file_object list \<Rightarrow> string option" where
  "validateImages fs =
     (if length fs = 0 then Some ''Please upload at least one image''
      else
        let uploadedCategories = spread_Set (map category fs);
            missingCategories = filter (\<lambda>cat. cat \<notin> set uploadedCategories) requiredCategories
        in if 0 < length missingCategories
           then Some (''Missing required vehicle images: '' @ join '', '' (map capitalize missingCategories))
           else None)"

text \<open>A field of the form state as \<^verbatim>\<open>FormData.append\<close> prints it.\<close>

definition form_field :: "(string \<rightharpoonup> string) \<Rightarrow> string \<Rightarrow> string" where
  "form_field fd k = (case fd k of None \<Rightarrow> ''undefined'' | Some v \<Rightarrow> v)"

text \<open>
  The body \<^verbatim>\<open>handleSubmit\<close> assembles. \<^verbatim>\<open>fileItem.file || fileItem\<close> is \<^verbatim>\<open>fileItem.file\<close>: every staged
  object carries its \<^verbatim>\<open>File\<close>.
\<close>

definition formDataToSend :: "new_claim \<Rightarrow> (string \<times> form_value) list" where
  "formDataToSend s =
     [(''policy_number'', TextPart (form_field (formData s) ''policy_number'')),
      (''accident_date'', TextPart (form_field (formData s) ''accident_date'')),
      (''location'', TextPart (form_field (formData s) ''location'')),
      (''description'', TextPart (form_field (formData s) ''description''))]
     @ map (\<lambda>fileItem. (''images'', FilePart (file_f fileItem))) (files s)"

text \<open>
  \<^verbatim>\<open>handleSubmit\<close> up to its \<^verbatim>\<open>await\<close>: either the validation error is shown and the handler
  returns, or the request is issued.
\<close>

definition handleSubmit :: "new_claim \<Rightarrow> new_claim" where
  "handleSubmit s =
     (case validateImages (files s) of
        Some imageError \<Rightarrow> s\<lparr>error := JStr imageError\<rparr>
      | None \<Rightarrow> s\<lparr>requests := requests s @ [Post ''/claims'' (formDataToSend s)],
                  loading := True, error := JStr []\<rparr>)"

text \<open>The rest of \<^verbatim>\<open>handleSubmit\<close> when the request succeeds, and when it fails.\<close>

definition handleSubmit_resolved :: "claim_summary \<Rightarrow> new_claim \<Rightarrow> new_claim" where
  "handleSubmit_resolved data s =
     s\<lparr>toasts := toasts s @ [ToastSuccess ''Claim submitted successfully!''],
       navigations := navigations s @ [''/claim/'' @ claim_id data],
       loading := False\<rparr>"

definition handleSubmit_rejected :: "axios_error \<Rightarrow> new_claim \<Rightarrow> new_claim" where
  "handleSubmit_rejected err s =
     (let msg = or_else (detail err) (JStr ''Failed to submit claim'')
      in s\<lparr>toasts := toasts s @ [ToastError msg], error := msg, loading := False\<rparr>)"






text \<open>
  What the user can do on the page, and the two ways a pending request ends. A drop carries the
  files dropped and the ids \<^verbatim>\<open>Math.random()\<close> will draw.
\<close>

datatype event =
    HandleChange string string
  | SetSelectedCategory string
  | Dropped "js_file list" "nat \<Rightarrow> string"
  | RemoveFile nat
  | UpdateFileCategory nat string
  | Submit
  | SubmitResolved claim_summary
  | SubmitRejected axios_error

text \<open>
  The category radios and the per-file select are rendered from \<^verbatim>\<open>imageCategories\<close>, one option per
  entry, so the \<^verbatim>\<open>e.target.value\<close> they deliver is the value of one of the entries.
\<close>

fun rendered :: "event \<Rightarrow> bool" where
  "rendered (SetSelectedCategory c) = (c \<in> set (map cat_value imageCategories))"
| "rendered (UpdateFileCategory i c) = (c \<in> set (map cat_value imageCategories))"
| "rendered e = True"

text \<open>
  A step is the state change the handler makes. The states a run passes through include the
  ones of a page still mounted; after a render that throws the real page takes no further step.
\<close>

fun step :: "(js_file \<Rightarrow> bool) \<Rightarrow> new_claim \<Rightarrow> event \<Rightarrow> new_claim" where
  "step accepts s (HandleChange k v) = s\<lparr>formData := (formData s)(k \<mapsto> v)\<rparr>"
| "step accepts s (SetSelectedCategory c) = s\<lparr>selectedCategory := c\<rparr>"
| "step accepts s (Dropped dropped rnd) =
     (let (fs, st) = onDrop (selectedCategory s) rnd (useDropzone accepts maxFiles dropped)
                            (files s, blob_urls s)
      in s\<lparr>files := fs, blob_urls := st\<rparr>)"
| "step accepts s (RemoveFile i) = s\<lparr>files := removeFile i (files s)\<rparr>"
| "step accepts s (UpdateFileCategory i c) = s\<lparr>files := updateFileCategory i c (files s)\<rparr>"
| "step accepts s Submit = handleSubmit s"
| "step accepts s (SubmitResolved data) = handleSubmit_resolved data s"
| "step accepts s (SubmitRejected err) = handleSubmit_rejected err s"

definition run :: "(js_file \<Rightarrow> bool) \<Rightarrow> new_claim \<Rightarrow> event list \<Rightarrow> new_claim" where
  "run accepts s es = foldl (step accepts) s es"

section \<open>The car verification component\<close>

text \<open>The record the server keeps for one angle, and the status it reports for a claim.\<close>

record angle_record =
  uploaded :: bool
  verified :: bool
  score :: rat
  uploaded_at :: "string option"

record verification_status =
  verified_angles :: nat
  total_angles :: nat
  threshold :: rat
  angles :: "string \<rightharpoonup> angle_record"
  status :: string

record car_verification = effects +
  claimId :: string
  verificationStatus :: "verification_status option"
  isLoading :: bool
  isUploading :: bool
  activeAngle :: "string option"

definition initial_car_verification :: "string \<Rightarrow> car_verification" where
  "initial_car_verification cid =
     \<lparr>toasts = [], requests = [], navigations = [], claimId = cid, verificationStatus = None,
      isLoading = True, isUploading = False, activeAngle = None\<rparr>"

text \<open>
  \<^verbatim>\<open>fetchVerificationStatus\<close> up to its \<^verbatim>\<open>await\<close>, and its two continuations. The only call of
  \<^verbatim>\<open>setVerificationStatus\<close> in the component is the one on the response of this request.
\<close>

definition fetchVerificationStatus :: "car_verification \<Rightarrow> car_verification" where
  "fetchVerificationStatus s =
     s\<lparr>requests := requests s @ [Get (''/api/car-verification/status/'' @ claimId s)],
       isLoading := True\<rparr>"

definition fetchVerificationStatus_resolved ::
  "verification_status \<Rightarrow> car_verification \<Rightarrow> car_verification" where
  "fetchVerificationStatus_resolved data s = s\<lparr>verificationStatus := Some data, isLoading := False\<rparr>"

definition fetchVerificationStatus_rejected :: "car_verification \<Rightarrow> car_verification" where
  "fetchVerificationStatus_rejected s =
     s\<lparr>toasts := toasts s @ [ToastError (JStr ''Failed to load verification status'')], isLoading := False\<rparr>"

text \<open>
  \<^verbatim>\<open>handleFileUpload\<close> up to its \<^verbatim>\<open>await\<close>, and its two continuations. On success the refresh is
  started (not awaited) before the \<^verbatim>\<open>finally\<close> block runs.
\<close>

definition handleFileUpload :: "string \<Rightarrow> js_file option \<Rightarrow> car_verification \<Rightarrow> car_verification" where
  "handleFileUpload angle fileopt s =
     (case fileopt of
        None \<Rightarrow> s
      | Some f \<Rightarrow>
          s\<lparr>requests := requests s @
                 [Post (''/api/car-verification/upload/'' @ claimId s @ ''?angle='' @ angle)
                       [(''file'', FilePart f)]],
            isUploading := True\<rparr>)"

definition handleFileUpload_resolved :: "string \<Rightarrow> car_verification \<Rightarrow> car_verification" where
  "handleFileUpload_resolved angle s =
     (fetchVerificationStatus
        (s\<lparr>toasts := toasts s @ [ToastSuccess (angle @ '' image uploaded successfully'')]\<rparr>))
     \<lparr>isUploading := False, activeAngle := None\<rparr>"

definition handleFileUpload_rejected ::
  "string \<Rightarrow> axios_error \<Rightarrow> car_verification \<Rightarrow> car_verification" where
  "handleFileUpload_rejected angle err s =
     s\<lparr>toasts := toasts s @
           [ToastError (JStr (''Failed to upload '' @ angle @ '' image: '' @
                              json_toString (or_else (detail err) (JStr (message err)))))],
       isUploading := False, activeAngle := None\<rparr>"

text \<open>
  The \<^verbatim>\<open>onChange\<close> handler of an angle's file input. The handler ends by resetting the input
  (\<^verbatim>\<open>e.target.value = null\<close>), so the component keeps no file of its own.
\<close>

definition onChange :: "string \<Rightarrow> js_file option \<Rightarrow> car_verification \<Rightarrow> car_verification" where
  "onChange angle fileopt s =
     (case fileopt of
        None \<Rightarrow> s
      | Some f \<Rightarrow> handleFileUpload angle (Some f) (s\<lparr>activeAngle := Some angle\<rparr>))"

datatype cv_event =
    Mount
  | StatusResolved verification_status
  | StatusRejected
  | FileChosen string "js_file option"
  | UploadResolved string
  | UploadRejected string axios_error

fun cv_step :: "car_verification \<Rightarrow> cv_event \<Rightarrow> car_verification" where
  "cv_step s Mount = fetchVerificationStatus s"
| "cv_step s (StatusResolved data) = fetchVerificationStatus_resolved data s"
| "cv_step s StatusRejected = fetchVerificationStatus_rejected s"
| "cv_step s (FileChosen angle fileopt) = onChange angle fileopt s"
| "cv_step s (UploadResolved angle) = handleFileUpload_resolved angle s"
| "cv_step s (UploadRejected angle err) = handleFileUpload_rejected angle err s"

definition cv_run :: "car_verification \<Rightarrow> cv_event list \<Rightarrow> car_verification" where
  "cv_run s es = foldl cv_step s es"

text \<open>
  \<^verbatim>\<open>Math.round((verified_angles / total_angles) * 100)\<close>, or 0 while no status is cached. The two
  counts are numbers of the response.
\<close>

definition overallProgress :: "verification_status option \<Rightarrow> js_number" where
  "overallProgress vs =
     (case vs of
        None \<Rightarrow> Num 0
      | Some v \<Rightarrow>
          Math_round
            (js_mul (js_div (to_double (of_nat (verified_angles v)))
                            (to_double (of_nat (total_angles v))))
                    (Num 100)))"

text \<open>The same computation on the two counts.\<close>

definition progress_of :: "nat \<Rightarrow> nat \<Rightarrow> js_number" where
  "progress_of v t =
     Math_round (js_mul (js_div (to_double (of_nat v)) (to_double (of_nat t))) (Num 100))"

text \<open>
  The header of the card once loading is over: the progress badge (its colour and its text), and
  whether the "Verification Complete" badge is rendered, which the component decides by
  \<^verbatim>\<open>verificationStatus?.status === 'complete'\<close>. While \<open>isLoading\<close> holds only the spinner is shown.
\<close>

definition progress_badge :: "car_verification \<Rightarrow> (string \<times> string) option" where
  "progress_badge s =
     (if isLoading s then None
      else let p = overallProgress (verificationStatus s)
           in Some (if p = Num 100 then ''success'' else ''warning'', toString p @ ''% Complete''))"

definition completion_badge :: "car_verification \<Rightarrow> bool" where
  "completion_badge s =
     (\<not> isLoading s \<and>
      (case verificationStatus s of None \<Rightarrow> False | Some v \<Rightarrow> status v = ''complete''))"

text \<open>
  Whether the card of an angle shows it as verified: \<^verbatim>\<open>verificationStatus?.angles?.[id] || {}\<close>,
  then \<^verbatim>\<open>angleData.verified\<close>.
\<close>

definition isVerified :: "car_verification \<Rightarrow> string \<Rightarrow> bool" where
  "isVerified s angle =
     (case verificationStatus s of
        None \<Rightarrow> False
      | Some v \<Rightarrow> (case angles v angle of None \<Rightarrow> False | Some a \<Rightarrow> verified a))"

section \<open>Invariants of the queue\<close>

text \<open>
  Every staged file, and the category selected for the next drop, carries the value of one of
  the entries of \<^verbatim>\<open>imageCategories\<close>.
\<close>

definition category_ok :: "new_claim \<Rightarrow> bool" where
  "category_ok s =
     (selectedCategory s \<in> set (map cat_value imageCategories) \<and>
      list_all (\<lambda>f. category f \<in> set (map cat_value imageCategories)) (files s))"

section \<open>Sample inputs\<close>

definition png :: "string \<Rightarrow> js_file" where
  "png n = \<lparr>file_name = n, file_size = 1024, file_type = ''image/png''\<rparr>"

definition staged :: "string \<Rightarrow> nat \<Rightarrow> string \<Rightarrow> file_object" where
  "staged n u c =
     \<lparr>file_f = png n, preview = u, name = n, size_f = 1024, type_f = ''image/png'',
      status_f = ''ready'', id_f = ''k3x9q0w1z'', category = c, categoryLabel = find_label c\<rparr>"

definition rnd0 :: "nat \<Rightarrow> string" where
  "rnd0 k = ''k3x9q0w1z''"

definition status_0_of_4 :: verification_status where
  "status_0_of_4 =
     \<lparr>verified_angles = 0, total_angles = 4, threshold = 7 / 10, angles = Map.empty,
      status = ''pending''\<rparr>"

definition status_front_pending :: verification_status where
  "status_front_pending =
     \<lparr>verified_angles = 0, total_angles = 4, threshold = 7 / 10,
      angles = [''front'' \<mapsto> \<lparr>uploaded = True, verified = False, score = 1 / 2,
                              uploaded_at = Some ''2024-05-01T10:00:00''\<rparr>],
      status = ''pending''\<rparr>"

definition status_front_verified :: verification_status where
  "status_front_verified =
     \<lparr>verified_angles = 1, total_angles = 4, threshold = 7 / 10,
      angles = [''front'' \<mapsto> \<lparr>uploaded = True, verified = True, score = 9 / 10,
                              uploaded_at = Some ''2024-05-01T10:00:00''\<rparr>],
      status = ''pending''\<rparr>"

definition status_2_of_4_complete :: verification_status where
  "status_2_of_4_complete =
     \<lparr>verified_angles = 2, total_angles = 4, threshold = 7 / 10, angles = Map.empty,
      status = ''complete''\<rparr>"



section \<open>Coverage of a queue\<close>

lemma accept_image_type: "file_type f = ''image/png'' \<Longrightarrow> accept_image f"
  by (simp add: accept_image_def toLowerCase_def)

lemma png_type: "file_type (png n) = ''image/png''"
  by (simp add: png_def)

lemma getCategoryStats_apply:
  "getCategoryStats fs =
     [''front'' \<mapsto> length (filter (\<lambda>f. category f = ''front'') fs),
      ''rear'' \<mapsto> length (filter (\<lambda>f. category f = ''rear'') fs),
      ''back'' \<mapsto> length (filter (\<lambda>f. category f = ''back'') fs),
      ''top'' \<mapsto> length (filter (\<lambda>f. category f = ''top'') fs)]"
  by (simp add: getCategoryStats_def imageCategories_def)

text \<open>
  C6: after \<open>f1\<close> and \<open>f2\<close> are added under the category front and \<open>f3\<close> under rear, to an
  empty queue, the coverage counts two files for front and one for rear, and these are the
  only categories with a count above 0. The object the code builds has an entry for each of
  the four categories, so back and top are listed in it with 0.
\<close>

theorem C6_coverage_after_add:
  "categoryCount (fst (onDrop ''rear'' r2 [f3] (onDrop ''front'' r1 [f1, f2] ([], st)))) ''front'' = 2
   \<and> categoryCount (fst (onDrop ''rear'' r2 [f3] (onDrop ''front'' r1 [f1, f2] ([], st)))) ''rear'' = 1
   \<and> filter (\<lambda>c. 0 < categoryCount
                (fst (onDrop ''rear'' r2 [f3] (onDrop ''front'' r1 [f1, f2] ([], st)))) c)
         (map cat_value imageCategories) = [''front'', ''rear'']
   \<and> getCategoryStats (fst (onDrop ''rear'' r2 [f3] (onDrop ''front'' r1 [f1, f2] ([], st))))
     = [''front'' \<mapsto> 2, ''rear'' \<mapsto> 1, ''back'' \<mapsto> 0, ''top'' \<mapsto> 0]"
  by (simp add: categoryCount_def getCategoryStats_apply imageCategories_def onDrop_def
      createObjectURL_def Let_def split_def numeral_2_eq_2)

section \<open>Validation before submission\<close>

lemma set_spread_Set: "set (spread_Set xs) = set xs"
  by (simp add: spread_Set_def)

lemma filter_category_nonempty:
  "c \<in> category ` set fs \<Longrightarrow> filter (\<lambda>f. category f = c) fs \<noteq> []"
  by (auto simp: filter_empty_conv)

lemma validateImages_None:
  assumes "set requiredCategories \<subseteq> category ` set fs"
  shows "validateImages fs = None"
proof -
  from assms have "fs \<noteq> []"
    by (auto simp: requiredCategories_def)
  moreover from assms have "filter (\<lambda>c. c \<notin> category ` set fs) requiredCategories = []"
    by (auto simp: filter_empty_conv)
  ultimately show ?thesis
    by (simp add: validateImages_def set_spread_Set Let_def)
qed

lemma getMissingCategories_Nil:
  assumes "set requiredCategories \<subseteq> category ` set fs"
  shows "getMissingCategories fs = []"
proof -
  from assms have "filter (\<lambda>f. category f = ''front'') fs \<noteq> []"
    "filter (\<lambda>f. category f = ''rear'') fs \<noteq> []"
    "filter (\<lambda>f. category f = ''back'') fs \<noteq> []"
    "filter (\<lambda>f. category f = ''top'') fs \<noteq> []"
    by (simp_all add: requiredCategories_def filter_category_nonempty)
  then show ?thesis
    by (simp add: getMissingCategories_def getCategoryStats_apply imageCategories_def)
qed

text \<open>
  C1, as the code has it: when a required category has no staged file, \<^verbatim>\<open>handleSubmit\<close> only sets
  the error and issues no request. For a queue that is not empty the error is
  "Missing required vehicle images: " followed by the capitalised names of exactly the required
  categories without a file, in the order front, rear, back, top; for the empty queue it is
  "Please upload at least one image".
\<close>

theorem C1_validation_error:
  assumes "\<exists>c\<in>set requiredCategories. c \<notin> category ` set (files s)"
  shows "handleSubmit s =
           s\<lparr>error :=
               JStr (if files s = [] then ''Please upload at least one image''
                     else ''Missing required vehicle images: '' @
                          join '', '' (map capitalize
                            (filter (\<lambda>c. c \<notin> category ` set (files s)) requiredCategories)))\<rparr>
         \<and> requests (handleSubmit s) = requests s"
proof -
  let ?missing = "filter (\<lambda>c. c \<notin> category ` set (files s)) requiredCategories"
  from assms have "?missing \<noteq> []"
    by (simp add: filter_empty_conv)
  then show ?thesis
    by (simp add: handleSubmit_def validateImages_def set_spread_Set Let_def)
qed

text \<open>
  C1 at a queue with one file for front and one for top: the error names rear and back, and the
  list of requests stays empty.
\<close>

theorem C1_validation_error_witness:
  "error (handleSubmit (initial_new_claim\<lparr>files := [staged ''a.png'' 0 ''front'', staged ''b.png'' 1 ''top'']\<rparr>))
     = JStr ''Missing required vehicle images: Rear, Back''
   \<and> requests (handleSubmit (initial_new_claim\<lparr>files := [staged ''a.png'' 0 ''front'', staged ''b.png'' 1 ''top'']\<rparr>))
     = []"
proof -
  let ?s = "initial_new_claim\<lparr>files := [staged ''a.png'' 0 ''front'', staged ''b.png'' 1 ''top'']\<rparr>"
  have h: "\<exists>c\<in>set requiredCategories. c \<notin> category ` set (files ?s)"
    by (simp add: requiredCategories_def staged_def)
  show ?thesis
    using C1_validation_error [OF h]
    by (simp add: requiredCategories_def staged_def capitalize_def toUpperCase_def
        initial_new_claim_def)
qed

text \<open>
  The claim C1 as written fails at the empty queue: all four required categories are missing,
  and the error shown is the general one, which names none of them.
\<close>

theorem C1_empty_queue_counterexample:
  "filter (\<lambda>c. c \<notin> category ` set (files initial_new_claim)) requiredCategories
     = [''front'', ''rear'', ''back'', ''top'']
   \<and> error (handleSubmit initial_new_claim) = JStr ''Please upload at least one image''
   \<and> error (handleSubmit initial_new_claim)
       \<noteq> JStr ''Missing required vehicle images: Front, Rear, Back, Top''"
  by (simp add: handleSubmit_def validateImages_def initial_new_claim_def requiredCategories_def)

text \<open>The four fields of the form are present in every state the page reaches.\<close>

lemma step_formData:
  "formData s k \<noteq> None \<Longrightarrow> formData (step accepts s e) k \<noteq> None"
  by (cases e) (simp_all add: split_def handleSubmit_def handleSubmit_resolved_def
      handleSubmit_rejected_def Let_def split: option.splits)

lemma run_formData:
  assumes "k \<in> {''policy_number'', ''accident_date'', ''location'', ''description''}"
  shows "formData (run accepts initial_new_claim es) k \<noteq> None"
proof -
  have "formData s k \<noteq> None \<Longrightarrow> formData (foldl (step accepts) s es) k \<noteq> None" for s
  proof (induction es arbitrary: s)
    case Nil
    then show ?case by simp
  next
    case (Cons e es)
    from Cons.prems have "formData (step accepts s e) k \<noteq> None"
      by (rule step_formData)
    then have "formData (foldl (step accepts) (step accepts s e) es) k \<noteq> None"
      by (rule Cons.IH)
    then show ?case by simp
  qed
  moreover from assms have "formData initial_new_claim k \<noteq> None"
    by (auto simp: initial_new_claim_def)
  ultimately show ?thesis
    by (simp add: run_def)
qed

text \<open>
  C2: when every required category has at least one staged file, \<^verbatim>\<open>getMissingCategories\<close> is
  empty and \<^verbatim>\<open>handleSubmit\<close> issues the request: a POST to /claims with the four fields as the
  form holds them (\<open>pn\<close>, \<open>ad\<close>, \<open>loc\<close>, \<open>desc\<close>) and then every staged file, in queue order,
  under the name images.
\<close>

theorem C2_complete_queue_is_submitted:
  assumes "set requiredCategories \<subseteq> category ` set (files s)"
    and "formData s ''policy_number'' = Some pn"
    and "formData s ''accident_date'' = Some ad"
    and "formData s ''location'' = Some loc"
    and "formData s ''description'' = Some desc"
  shows "getMissingCategories (files s) = []
         \<and> handleSubmit s =
             s\<lparr>requests := requests s @
                  [Post ''/claims''
                     ([(''policy_number'', TextPart pn), (''accident_date'', TextPart ad),
                       (''location'', TextPart loc), (''description'', TextPart desc)]
                      @ map (\<lambda>f. (''images'', FilePart (file_f f))) (files s))],
               loading := True, error := JStr []\<rparr>"
  using assms
  by (simp add: getMissingCategories_Nil validateImages_None handleSubmit_def formDataToSend_def
      form_field_def)

text \<open>
  C2 on a page where the user has filled in the four fields and dropped one image for each
  category: the request carries the four texts typed and the four files.
\<close>

theorem C2_complete_queue_is_submitted_witness:
  "requests (handleSubmit (run accept_image initial_new_claim
      [HandleChange ''policy_number'' ''POL-2024-0042'', HandleChange ''accident_date'' ''2024-05-01'',
       HandleChange ''location'' ''12 Harbour Road'', HandleChange ''description'' ''Rear bumper dented'',
       Dropped [png ''a.png''] rnd0, SetSelectedCategory ''rear'', Dropped [png ''b.png''] rnd0,
       SetSelectedCategory ''back'', Dropped [png ''c.png''] rnd0,
       SetSelectedCategory ''top'', Dropped [png ''d.png''] rnd0]))
     = [Post ''/claims''
          [(''policy_number'', TextPart ''POL-2024-0042''), (''accident_date'', TextPart ''2024-05-01''),
           (''location'', TextPart ''12 Harbour Road''),
           (''description'', TextPart ''Rear bumper dented''),
           (''images'', FilePart (png ''a.png'')), (''images'', FilePart (png ''b.png'')),
           (''images'', FilePart (png ''c.png'')), (''images'', FilePart (png ''d.png''))]]
   \<and> getMissingCategories (files (run accept_image initial_new_claim
      [HandleChange ''policy_number'' ''POL-2024-0042'', HandleChange ''accident_date'' ''2024-05-01'',
       HandleChange ''location'' ''12 Harbour Road'', HandleChange ''description'' ''Rear bumper dented'',
       Dropped [png ''a.png''] rnd0, SetSelectedCategory ''rear'', Dropped [png ''b.png''] rnd0,
       SetSelectedCategory ''back'', Dropped [png ''c.png''] rnd0,
       SetSelectedCategory ''top'', Dropped [png ''d.png''] rnd0])) = []"
proof -
  let ?s = "run accept_image initial_new_claim
      [HandleChange ''policy_number'' ''POL-2024-0042'', HandleChange ''accident_date'' ''2024-05-01'',
       HandleChange ''location'' ''12 Harbour Road'', HandleChange ''description'' ''Rear bumper dented'',
       Dropped [png ''a.png''] rnd0, SetSelectedCategory ''rear'', Dropped [png ''b.png''] rnd0,
       SetSelectedCategory ''back'', Dropped [png ''c.png''] rnd0,
       SetSelectedCategory ''top'', Dropped [png ''d.png''] rnd0]"
  have f: "map category (files ?s) = [''front'', ''rear'', ''back'', ''top'']"
    "map (\<lambda>f. (''images'', FilePart (file_f f))) (files ?s)
       = [(''images'', FilePart (png ''a.png'')), (''images'', FilePart (png ''b.png'')),
          (''images'', FilePart (png ''c.png'')), (''images'', FilePart (png ''d.png''))]"
    "requests ?s = []"
    by (simp_all add: run_def initial_new_claim_def onDrop_def useDropzone_def accept_image_type png_type
        maxFiles_def createObjectURL_def Let_def split_def)
  have h: "set requiredCategories \<subseteq> category ` set (files ?s)"
    using f(1) by (metis list.set_map requiredCategories_def subset_refl)
  have 1: "formData ?s ''policy_number'' = Some ''POL-2024-0042''"
    and 2: "formData ?s ''accident_date'' = Some ''2024-05-01''"
    and 3: "formData ?s ''location'' = Some ''12 Harbour Road''"
    and 4: "formData ?s ''description'' = Some ''Rear bumper dented''"
    by (simp_all add: run_def initial_new_claim_def split_def Let_def)
  from C2_complete_queue_is_submitted [OF h 1 2 3 4] f show ?thesis
    by simp
qed

section \<open>The queue under the user's operations\<close>

lemma createFileObjects_category:
  "list_all (\<lambda>f. category f = c) (fst (createFileObjects c r k st fs))"
  by (induction fs arbitrary: k st) (simp_all add: split_def Let_def)

lemma createFileObjects_length:
  "length (fst (createFileObjects c r k st fs)) = length fs"
  by (induction fs arbitrary: k st) (simp_all add: split_def Let_def)

lemma createFileObjects_files:
  "map file_f (fst (createFileObjects c r k st fs)) = fs"
  by (induction fs arbitrary: k st) (simp_all add: split_def Let_def)

lemma onDrop_files:
  "fst (onDrop c r fs (prev, st)) = prev @ fst (createFileObjects c r 0 st fs)"
  by (simp add: onDrop_def split_def Let_def)

lemma set_removeFile: "set (removeFile i xs) \<subseteq> set xs"
  by (auto simp: removeFile_def in_set_enumerate_eq)

lemma removeFile_list_all: "list_all P xs \<Longrightarrow> list_all P (removeFile i xs)"
  using set_removeFile [of i xs] by (auto simp: list_all_iff)

lemma updateFileCategory_list_all:
  assumes "list_all (\<lambda>f. category f \<in> V) xs" and "c \<in> V"
  shows "list_all (\<lambda>f. category f \<in> V) (updateFileCategory i c xs)"
  using assms by (auto simp: updateFileCategory_def list_all_iff in_set_enumerate_eq)

text \<open>
  \<^verbatim>\<open>updateFileCategory\<close> itself stores whatever string it is given; the bound on the category comes
  from its only caller, the select rendered from \<^verbatim>\<open>imageCategories\<close>.
\<close>

lemma updateFileCategory_stores_its_argument:
  "map category (updateFileCategory 0 ''side'' [staged ''a.png'' 0 ''front'']) = [''side'']"
  by (simp add: updateFileCategory_def staged_def)

lemma step_category_ok:
  assumes "category_ok s" and "rendered e"
  shows "category_ok (step accepts s e)"
proof (cases e)
  case (Dropped dropped rnd)
  have "list_all (\<lambda>f. category f \<in> set (map cat_value imageCategories))
          (fst (createFileObjects (selectedCategory s) rnd 0 (blob_urls s)
                  (useDropzone accepts maxFiles dropped)))"
    using createFileObjects_category [of "selectedCategory s" rnd 0 "blob_urls s"
        "useDropzone accepts maxFiles dropped"] assms(1)
    by (auto simp: list_all_iff category_ok_def)
  with assms(1) Dropped show ?thesis
    by (simp add: category_ok_def split_def onDrop_files)
next
  case (RemoveFile i)
  with assms show ?thesis
    by (simp add: category_ok_def removeFile_list_all)
next
  case (UpdateFileCategory i c)
  with assms show ?thesis
    by (simp add: category_ok_def updateFileCategory_list_all)
next
  case Submit
  with assms show ?thesis
    by (simp add: category_ok_def handleSubmit_def split: option.splits)
qed (use assms in \<open>simp_all add: category_ok_def handleSubmit_resolved_def
      handleSubmit_rejected_def Let_def\<close>)

lemma run_category_ok:
  "category_ok s \<Longrightarrow> list_all rendered es \<Longrightarrow> category_ok (run accepts s es)"
  unfolding run_def
  by (induction es arbitrary: s) (simp_all add: step_category_ok)

lemma initial_category_ok: "category_ok initial_new_claim"
  by (simp add: category_ok_def initial_new_claim_def imageCategories_def)

text \<open>
  C9: in every state the page reaches from its initial state by the user's operations (drops,
  removals, changes of a file's category, changes of the selected category, edits of the form
  and submissions), each staged file's category is one of front, rear, back, top. The
  operations are the ones the rendered controls fire: the radios and the select deliver the
  value of an entry of \<^verbatim>\<open>imageCategories\<close>.
\<close>

theorem C9_category_in_enum:
  assumes "list_all rendered es"
  shows "\<forall>f\<in>set (files (run accepts initial_new_claim es)).
           category f \<in> {''front'', ''rear'', ''back'', ''top''}"
  using run_category_ok [OF initial_category_ok assms, of accepts]
  by (simp add: category_ok_def list_all_iff imageCategories_def)

text \<open>
  C9 on a run with two drops, a change of category, a change of the selected category and a
  removal: the two files left carry top and rear.
\<close>

theorem C9_category_in_enum_witness:
  "list_all rendered
     [Dropped [png ''a.png'', png ''b.png''] rnd0, UpdateFileCategory 1 ''top'',
      SetSelectedCategory ''rear'', Dropped [png ''c.png''] rnd0, RemoveFile 0]
   \<and> map category (files (run accept_image initial_new_claim
        [Dropped [png ''a.png'', png ''b.png''] rnd0, UpdateFileCategory 1 ''top'',
         SetSelectedCategory ''rear'', Dropped [png ''c.png''] rnd0, RemoveFile 0]))
      = [''top'', ''rear'']
   \<and> list_all (\<lambda>f. category f \<in> {''front'', ''rear'', ''back'', ''top''})
        (files (run accept_image initial_new_claim
          [Dropped [png ''a.png'', png ''b.png''] rnd0, UpdateFileCategory 1 ''top'',
           SetSelectedCategory ''rear'', Dropped [png ''c.png''] rnd0, RemoveFile 0]))"
proof -
  let ?es = "[Dropped [png ''a.png'', png ''b.png''] rnd0, UpdateFileCategory 1 ''top'',
              SetSelectedCategory ''rear'', Dropped [png ''c.png''] rnd0, RemoveFile 0]"
  have h: "list_all rendered ?es"
    by (simp add: imageCategories_def)
  have m: "map category (files (run accept_image initial_new_claim ?es)) = [''top'', ''rear'']"
    by (simp add: run_def initial_new_claim_def onDrop_def useDropzone_def accept_image_type png_type
        png_def maxFiles_def createObjectURL_def Let_def split_def updateFileCategory_def
        removeFile_def find_label_def imageCategories_def)
  from C9_category_in_enum [OF h, of accept_image] h m show ?thesis
    by (simp add: list_all_iff)
qed

lemma revokeObjectURL_releases: "u \<notin> set (live (revokeObjectURL u st))"
  by (simp add: revokeObjectURL_def)

text \<open>
  C7, as the code has it: after \<open>f1\<close> (the first file of the queue) is removed, the coverage
  counts one file for front and one for rear and the queue holds \<open>f2\<close> and \<open>f3\<close>. The removal
  only filters the list: the object URL allocated for the preview of \<open>f1\<close> is still live in the
  document's store, and no removal changes the store.
\<close>

theorem C7_coverage_after_remove:
  "getCategoryStats
     (removeFile 0 (fst (onDrop ''rear'' r2 [f3] (onDrop ''front'' r1 [f1, f2] ([], st)))))
     = [''front'' \<mapsto> 1, ''rear'' \<mapsto> 1, ''back'' \<mapsto> 0, ''top'' \<mapsto> 0]
   \<and> filter (\<lambda>c. 0 < categoryCount
         (removeFile 0 (fst (onDrop ''rear'' r2 [f3] (onDrop ''front'' r1 [f1, f2] ([], st))))) c)
         (map cat_value imageCategories) = [''front'', ''rear'']
   \<and> map file_f (removeFile 0 (fst (onDrop ''rear'' r2 [f3] (onDrop ''front'' r1 [f1, f2] ([], st)))))
     = [f2, f3]
   \<and> preview (fst (onDrop ''rear'' r2 [f3] (onDrop ''front'' r1 [f1, f2] ([], st))) ! 0)
       \<in> set (live (snd (onDrop ''rear'' r2 [f3] (onDrop ''front'' r1 [f1, f2] ([], st)))))
   \<and> blob_urls (step accepts s (RemoveFile i)) = blob_urls s"
  by (simp add: categoryCount_def getCategoryStats_apply imageCategories_def onDrop_def
      createObjectURL_def Let_def split_def removeFile_def)

text \<open>
  The claim C7 as written fails on its own scenario: the preview of \<open>f1\<close> is the object URL 0,
  and after the removal of \<open>f1\<close> the store still holds the URLs 0, 1 and 2.
\<close>

theorem C7_preview_not_released_counterexample:
  "preview (files (run accept_image initial_new_claim
       [Dropped [png ''f1.png'', png ''f2.png''] rnd0, SetSelectedCategory ''rear'',
        Dropped [png ''f3.png''] rnd0]) ! 0) = 0
   \<and> map name (files (run accept_image initial_new_claim
       [Dropped [png ''f1.png'', png ''f2.png''] rnd0, SetSelectedCategory ''rear'',
        Dropped [png ''f3.png''] rnd0, RemoveFile 0])) = [''f2.png'', ''f3.png'']
   \<and> live (blob_urls (run accept_image initial_new_claim
       [Dropped [png ''f1.png'', png ''f2.png''] rnd0, SetSelectedCategory ''rear'',
        Dropped [png ''f3.png''] rnd0, RemoveFile 0])) = [0, 1, 2]"
  by (simp add: run_def initial_new_claim_def onDrop_def useDropzone_def accept_image_type png_type png_def
      maxFiles_def createObjectURL_def Let_def split_def removeFile_def find_label_def
      imageCategories_def)

text \<open>Only files the dropzone accepted are ever staged.\<close>

lemma step_only_accepted:
  assumes "list_all (\<lambda>f. accepts (file_f f)) (files s)"
  shows "list_all (\<lambda>f. accepts (file_f f)) (files (step accepts s e))"
proof (cases e)
  case (Dropped dropped rnd)
  have "list_all accepts (useDropzone accepts maxFiles dropped)"
    by (simp add: useDropzone_def Let_def list_all_iff)
  then have "list_all accepts
               (map file_f (fst (createFileObjects (selectedCategory s) rnd 0 (blob_urls s)
                       (useDropzone accepts maxFiles dropped))))"
    by (simp only: createFileObjects_files)
  then have "list_all (\<lambda>f. accepts (file_f f))
               (fst (createFileObjects (selectedCategory s) rnd 0 (blob_urls s)
                       (useDropzone accepts maxFiles dropped)))"
    by (simp add: list_all_iff)
  with assms Dropped show ?thesis
    by (simp add: split_def onDrop_files)
next
  case (RemoveFile i)
  with assms show ?thesis
    by (simp add: removeFile_list_all)
next
  case (UpdateFileCategory i c)
  with assms show ?thesis
    by (auto simp: updateFileCategory_def list_all_iff in_set_enumerate_eq)
next
  case Submit
  with assms show ?thesis
    by (simp add: handleSubmit_def split: option.splits)
qed (use assms in \<open>simp_all add: handleSubmit_resolved_def handleSubmit_rejected_def Let_def\<close>)

lemma run_only_accepted:
  "list_all (\<lambda>f. accepts (file_f f)) (files (run accepts initial_new_claim es))"
proof -
  have "list_all (\<lambda>f. accepts (file_f f)) (files s) \<Longrightarrow>
        list_all (\<lambda>f. accepts (file_f f)) (files (foldl (step accepts) s es))" for s
    by (induction es arbitrary: s) (simp_all add: step_only_accepted)
  then show ?thesis
    by (simp add: run_def initial_new_claim_def)
qed

text \<open>
  The test of the dropzone is not one of the type alone: a text file with the name of an image
  passes it and is staged.
\<close>

lemma text_file_named_png_is_staged:
  "map file_f (files (run accept_image initial_new_claim
      [Dropped [\<lparr>file_name = ''notes.png'', file_size = 12, file_type = ''text/plain''\<rparr>] rnd0]))
     = [\<lparr>file_name = ''notes.png'', file_size = 12, file_type = ''text/plain''\<rparr>]"
  by (simp add: run_def initial_new_claim_def useDropzone_def accept_image_def endsWith_def
      toLowerCase_def maxFiles_def split_def Let_def onDrop_files)

text \<open>
  C8 says that the queue never holds more than \<^verbatim>\<open>maxFiles\<close> files. The code at two drops of seven
  images each, with \<^verbatim>\<open>maxFiles\<close> 12: each drop passes the dropzone, whose limit is per drop, and
  \<^verbatim>\<open>onDrop\<close> appends without looking at the length of the queue, which then holds 14 files.
\<close>

theorem C8_queue_exceeds_maxFiles:
  "length (files (run accept_image initial_new_claim
      [Dropped (replicate 7 (png ''a.png'')) rnd0, Dropped (replicate 7 (png ''a.png'')) rnd0])) = 14
   \<and> maxFiles = 12"
  by (simp add: run_def initial_new_claim_def useDropzone_def accept_image_type png_type png_def
      maxFiles_def split_def onDrop_files createFileObjects_length)

section \<open>Failed requests\<close>










section \<open>Evaluating numbers\<close>

lemma bits_0: "bits 0 = 0"
  by (simp add: bits.simps)

lemma bits_1: "bits 1 = 1"
  by (simp add: bits.simps)

lemma bits_numeral: "bits (numeral k) = Suc (bits (numeral k div 2))"
  by (subst bits.simps) simp

lemma bits_neg: "bits (- numeral k) = 0"
  by (simp add: bits.simps)

lemma floor_numeral_divide: "\<lfloor>numeral a / numeral b :: rat\<rfloor> = numeral a div numeral b"
  using floor_divide_of_int_eq [of "numeral a" "numeral b", where ?'a = rat] by simp

lemma floor_one_divide: "\<lfloor>1 / numeral b :: rat\<rfloor> = 1 div numeral b"
  using floor_divide_of_int_eq [of 1 "numeral b", where ?'a = rat] by simp

lemma ceiling_numeral_divide: "\<lceil>numeral a / numeral b :: rat\<rceil> = - ((- numeral a) div numeral b)"
  using floor_divide_of_int_eq [of "- numeral a" "numeral b", where ?'a = rat]
  by (simp add: ceiling_def)

lemma ceiling_one_divide: "\<lceil>1 / numeral b :: rat\<rceil> = - ((- 1) div numeral b)"
  using floor_divide_of_int_eq [of "- 1" "numeral b", where ?'a = rat]
  by (simp add: ceiling_def)

lemmas dbl = progress_of_def to_double_def round_pos_def binary_exponent_def scale2_def
  ties_even_def Let_def bits_0 bits_1 bits_numeral bits_neg floor_numeral_divide
  floor_one_divide ceiling_numeral_divide ceiling_one_divide

lemma show_nat_0: "show_nat 0 = ''0''"
  by (simp add: show_nat.simps)

lemma show_nat_1: "show_nat 1 = ''1''"
  by (simp add: show_nat.simps)

lemma show_nat_numeral:
  "show_nat (numeral k) =
     (if numeral k < (10::nat) then [''0123456789'' ! numeral k]
      else show_nat (numeral k div 10) @ [''0123456789'' ! (numeral k mod 10)])"
  by (subst show_nat.simps) simp

lemma shortest_numeral:
  "shortest x n (numeral f) k =
     (case candidate x n k of Some s \<Rightarrow> (s, k) | None \<Rightarrow> shortest x n (pred_numeral f) (Suc k))"
  by (simp add: numeral_eq_Suc)

lemmas str = number_format_def decimal_exponent_def candidate_def scale10_def strip_zeros_def
  show_nat_0 show_nat_1 show_nat_numeral shortest_numeral

lemma list_allD: "list_all P xs \<Longrightarrow> x \<in> set xs \<Longrightarrow> P x"
  by (simp add: list_all_iff)

section \<open>Progress of a verification\<close>

lemma overallProgress_Some:
  "overallProgress (Some v) = progress_of (verified_angles v) (total_angles v)"
  by (simp add: overallProgress_def progress_of_def)

text \<open>The whole numbers up to 100 are doubles.\<close>

lemma nat_exact_table: "list_all (\<lambda>n. to_double (of_nat n) = Num (of_nat n)) [2..<101]"
  by (simp add: dbl)

lemma nat_exact: "n \<le> 100 \<Longrightarrow> to_double (of_nat n) = Num (of_nat n)"
proof -
  assume n: "n \<le> 100"
  consider "n = 0" | "n = 1" | "n \<in> set [2..<101]"
    using n by (simp only: set_upt atLeastLessThan_iff) arith
  then show ?thesis
  proof cases
    case 1
    then show ?thesis by (simp add: dbl)
  next
    case 2
    then show ?thesis by (simp add: dbl)
  next
    case 3
    from list_allD [OF nat_exact_table this] show ?thesis .
  qed
qed

text \<open>
  A number of hundredths, taken as a double and multiplied by 100, rounds to the number: the
  error of the division is too small to move the product across a half.
\<close>

lemma hundredth_a:
  "list_all (\<lambda>m. Math_round (js_mul (to_double (of_nat m / 100)) (Num 100)) = Num (of_nat m))
     [2..<26]"
  by (simp add: dbl)

lemma hundredth_b:
  "list_all (\<lambda>m. Math_round (js_mul (to_double (of_nat m / 100)) (Num 100)) = Num (of_nat m))
     [26..<51]"
  by (simp add: dbl)

lemma hundredth_c:
  "list_all (\<lambda>m. Math_round (js_mul (to_double (of_nat m / 100)) (Num 100)) = Num (of_nat m))
     [51..<76]"
  by (simp add: dbl)

lemma hundredth_d:
  "list_all (\<lambda>m. Math_round (js_mul (to_double (of_nat m / 100)) (Num 100)) = Num (of_nat m))
     [76..<101]"
  by (simp add: dbl)

lemma hundredth_all:
  "m \<le> 100 \<Longrightarrow> Math_round (js_mul (to_double (of_nat m / 100)) (Num 100)) = Num (of_nat m)"
proof -
  assume m: "m \<le> 100"
  consider "m = 0" | "m = 1" | "m \<in> set [2..<26]" | "m \<in> set [26..<51]"
    | "m \<in> set [51..<76]" | "m \<in> set [76..<101]"
    using m by (simp only: set_upt atLeastLessThan_iff) arith
  then show ?thesis
  proof cases
    case 1
    then show ?thesis by (simp add: dbl)
  next
    case 2
    then show ?thesis by (simp add: dbl)
  next
    case 3
    from list_allD [OF hundredth_a this] show ?thesis .
  next
    case 4
    from list_allD [OF hundredth_b this] show ?thesis .
  next
    case 5
    from list_allD [OF hundredth_c this] show ?thesis .
  next
    case 6
    from list_allD [OF hundredth_d this] show ?thesis .
  qed
qed

text \<open>When the total divides 100 the progress is a whole multiple of the step.\<close>

lemma progress_of_dvd:
  assumes "t dvd 100" and "v \<le> t"
  shows "progress_of v t = Num (of_nat (v * (100 div t)))"
proof -
  from assms(1) obtain k where k: "100 = t * k" by (auto simp: dvd_def)
  then have t0: "t \<noteq> 0" by (cases "t = 0") auto
  from k have k0: "k \<noteq> 0" by (cases "k = 0") auto
  have d: "100 div t = k" using k t0 by (metis nonzero_mult_div_cancel_left)
  from assms(1) have t100: "t \<le> 100" by (auto dest: dvd_imp_le)
  with assms(2) have v100: "v \<le> 100" by simp
  have vk: "v * k \<le> 100" using assms(2) k by (metis mult_le_mono1)
  have "(of_nat (v * k) / 100 :: rat) = (of_nat v * of_nat k) / (of_nat t * of_nat k)"
    using k by (metis of_nat_mult of_nat_numeral)
  also have "\<dots> = of_nat v / of_nat t"
    using k0 by simp
  finally have q: "(of_nat v / of_nat t :: rat) = of_nat (v * k) / 100"
    by simp
  have "progress_of v t = Math_round (js_mul (to_double (of_nat v / of_nat t)) (Num 100))"
    using t0 by (simp add: progress_of_def nat_exact [OF v100] nat_exact [OF t100])
  also have "\<dots> = Num (of_nat (v * k))"
    using hundredth_all [OF vk] by (simp only: q)
  finally show ?thesis by (simp only: d)
qed

text \<open>
  Totals that do not divide 100, and a quotient whose double lies below the half the exact
  quotient would reach.
\<close>

lemma progress_of_samples:
  "progress_of 1 3 = Num 33 \<and> progress_of 2 3 = Num 67 \<and> progress_of 1 8 = Num 13
   \<and> progress_of 23 40 = Num 57"
  by (simp add: dbl)

lemma upload_then_refresh:
  "verificationStatus (cv_step (cv_step s (UploadResolved angle)) (StatusResolved d)) = Some d"
  by (simp add: fetchVerificationStatus_resolved_def)

lemmas cv_defs = cv_run_def initial_car_verification_def fetchVerificationStatus_def
  fetchVerificationStatus_resolved_def fetchVerificationStatus_rejected_def onChange_def
  handleFileUpload_def handleFileUpload_resolved_def handleFileUpload_rejected_def

text \<open>
  C4, as the code has it. A successful upload starts a refresh, and when the refresh succeeds
  the progress is the one of the record the server returned:
  \<^verbatim>\<open>Math.round((verified_angles / total_angles) * 100)\<close>, computed on doubles, which is 33 for 1 of
  3 angles, 67 for 2 of 3, 13 for 1 of 8 and 57 for 23 of 40. When the record has the counts of the
  cached one (the image stored, not verified) the progress is the one from before. When it
  reports one more verified angle than the cached one, out of the same total, the total divides
  100 and no more angles are verified than there are, the progress goes from the old count times
  the step to the new count times the step, the step being 100 divided by the total.
\<close>

theorem C4_progress_after_upload:
  "requests (cv_step s (UploadResolved angle))
       = requests s @ [Get (''/api/car-verification/status/'' @ claimId s)]
   \<and> overallProgress
       (verificationStatus (cv_step (cv_step s (UploadResolved angle)) (StatusResolved d)))
       = overallProgress (Some d)
   \<and> overallProgress (Some d)
       = Math_round (js_mul (js_div (to_double (of_nat (verified_angles d)))
                                    (to_double (of_nat (total_angles d)))) (Num 100))
   \<and> overallProgress (Some (d\<lparr>verified_angles := 1, total_angles := 3\<rparr>)) = Num 33
   \<and> overallProgress (Some (d\<lparr>verified_angles := 2, total_angles := 3\<rparr>)) = Num 67
   \<and> overallProgress (Some (d\<lparr>verified_angles := 1, total_angles := 8\<rparr>)) = Num 13
   \<and> overallProgress (Some (d\<lparr>verified_angles := 23, total_angles := 40\<rparr>)) = Num 57
   \<and> (verificationStatus s = Some v \<and> total_angles d = total_angles v
        \<and> verified_angles d = verified_angles v \<longrightarrow>
      overallProgress
        (verificationStatus (cv_step (cv_step s (UploadResolved angle)) (StatusResolved d)))
        = overallProgress (verificationStatus s))
   \<and> (verificationStatus s = Some v \<and> total_angles d = total_angles v
        \<and> verified_angles d = Suc (verified_angles v) \<and> total_angles v dvd 100
        \<and> verified_angles d \<le> total_angles d \<longrightarrow>
      overallProgress (verificationStatus s)
        = Num (of_nat (verified_angles v * (100 div total_angles v)))
      \<and> overallProgress
          (verificationStatus (cv_step (cv_step s (UploadResolved angle)) (StatusResolved d)))
          = Num (of_nat (verified_angles v * (100 div total_angles v))
                 + of_nat (100 div total_angles v)))"
proof -
  have a: "requests (cv_step s (UploadResolved angle))
       = requests s @ [Get (''/api/car-verification/status/'' @ claimId s)]"
    by (simp add: handleFileUpload_resolved_def fetchVerificationStatus_def)
  have b: "overallProgress (Some d)
       = Math_round (js_mul (js_div (to_double (of_nat (verified_angles d)))
                                    (to_double (of_nat (total_angles d)))) (Num 100))"
    by (simp add: overallProgress_def)
  have c: "overallProgress (Some (d\<lparr>verified_angles := 1, total_angles := 3\<rparr>)) = Num 33
   \<and> overallProgress (Some (d\<lparr>verified_angles := 2, total_angles := 3\<rparr>)) = Num 67
   \<and> overallProgress (Some (d\<lparr>verified_angles := 1, total_angles := 8\<rparr>)) = Num 13
   \<and> overallProgress (Some (d\<lparr>verified_angles := 23, total_angles := 40\<rparr>)) = Num 57"
    using progress_of_samples by (simp add: overallProgress_Some)
  have e: "verificationStatus s = Some v \<and> total_angles d = total_angles v
        \<and> verified_angles d = verified_angles v \<longrightarrow>
      overallProgress (Some d) = overallProgress (verificationStatus s)"
    by (simp add: overallProgress_Some)
  have f: "verificationStatus s = Some v \<and> total_angles d = total_angles v
        \<and> verified_angles d = Suc (verified_angles v) \<and> total_angles v dvd 100
        \<and> verified_angles d \<le> total_angles d \<longrightarrow>
      overallProgress (verificationStatus s)
        = Num (of_nat (verified_angles v * (100 div total_angles v)))
      \<and> overallProgress (Some d)
          = Num (of_nat (verified_angles v * (100 div total_angles v))
                 + of_nat (100 div total_angles v))"
  proof
    assume h: "verificationStatus s = Some v \<and> total_angles d = total_angles v
        \<and> verified_angles d = Suc (verified_angles v) \<and> total_angles v dvd 100
        \<and> verified_angles d \<le> total_angles d"
    then have le: "verified_angles v \<le> total_angles v" and le': "Suc (verified_angles v) \<le> total_angles v"
      by simp_all
    from h have dv: "total_angles v dvd 100" by simp
    have 1: "overallProgress (verificationStatus s)
        = Num (of_nat (verified_angles v * (100 div total_angles v)))"
      using h progress_of_dvd [OF dv le] by (simp add: overallProgress_Some)
    have 2: "overallProgress (Some d)
          = Num (of_nat (verified_angles v * (100 div total_angles v))
                 + of_nat (100 div total_angles v))"
      using h progress_of_dvd [OF dv le'] by (simp add: overallProgress_Some)
    from 1 2 show "overallProgress (verificationStatus s)
        = Num (of_nat (verified_angles v * (100 div total_angles v)))
      \<and> overallProgress (Some d)
          = Num (of_nat (verified_angles v * (100 div total_angles v))
                 + of_nat (100 div total_angles v))" by simp
  qed
  from a b c e f show ?thesis
    by (simp only: upload_then_refresh simp_thms)
qed

text \<open>
  C4 with four angles: the front image is uploaded and the refresh reports it verified; the
  progress goes from 0 to 25.
\<close>

theorem C4_progress_after_upload_witness:
  "overallProgress (verificationStatus (cv_run (initial_car_verification ''17'')
      [Mount, StatusResolved status_0_of_4])) = Num 0
   \<and> overallProgress (verificationStatus (cv_run (initial_car_verification ''17'')
      [Mount, StatusResolved status_0_of_4, UploadResolved ''front'',
       StatusResolved status_front_verified])) = Num 25"
proof -
  let ?s = "cv_run (initial_car_verification ''17'') [Mount, StatusResolved status_0_of_4]"
  have h: "verificationStatus ?s = Some status_0_of_4
      \<and> total_angles status_front_verified = total_angles status_0_of_4
      \<and> verified_angles status_front_verified = Suc (verified_angles status_0_of_4)
      \<and> total_angles status_0_of_4 dvd 100
      \<and> verified_angles status_front_verified \<le> total_angles status_front_verified"
    by (simp add: cv_defs status_0_of_4_def status_front_verified_def)
  from C4_progress_after_upload [of ?s "''front''" status_front_verified status_0_of_4] h
  have "overallProgress (verificationStatus ?s)
        = Num (of_nat (verified_angles status_0_of_4 * (100 div total_angles status_0_of_4)))
      \<and> overallProgress
          (verificationStatus (cv_step (cv_step ?s (UploadResolved ''front''))
                                       (StatusResolved status_front_verified)))
          = Num (of_nat (verified_angles status_0_of_4 * (100 div total_angles status_0_of_4))
                 + of_nat (100 div total_angles status_0_of_4))"
    by blast
  then show ?thesis
    by (simp add: cv_run_def status_0_of_4_def)
qed

text \<open>
  The claim C4 as written fails when the server has stored the image and not yet verified it:
  the upload of the front image succeeds, the refresh succeeds, and the progress is 0 before
  and after.
\<close>

theorem C4_upload_without_progress_counterexample:
  "overallProgress (verificationStatus (cv_run (initial_car_verification ''17'')
      [Mount, StatusResolved status_0_of_4])) = Num 0
   \<and> overallProgress (verificationStatus (cv_run (initial_car_verification ''17'')
      [Mount, StatusResolved status_0_of_4, FileChosen ''front'' (Some (png ''front.png'')),
       UploadResolved ''front'', StatusResolved status_front_pending])) = Num 0"
  by (simp add: cv_defs overallProgress_Some status_0_of_4_def status_front_pending_def dbl)

text \<open>
  C5, as the code has it. With two of four angles verified the progress is 50 and the progress
  badge reads "50% Complete" (in the warning colour). The "Verification Complete" badge is
  rendered exactly when the status field of the server's record is "complete"; the counts of
  the record play no part in it.
\<close>

theorem C5_two_of_four:
  assumes "\<not> isLoading s" and "verificationStatus s = Some v"
    and "total_angles v = 4" and "verified_angles v = 2"
  shows "overallProgress (verificationStatus s) = Num 50
       \<and> progress_badge s = Some (''warning'', ''50% Complete'')
       \<and> completion_badge s = (status v = ''complete'')
       \<and> completion_badge (s\<lparr>verificationStatus := Some (v\<lparr>verified_angles := a, total_angles := b\<rparr>)\<rparr>)
           = completion_badge s"
proof -
  have p: "overallProgress (verificationStatus s) = Num 50"
    using assms by (simp add: overallProgress_Some dbl)
  have t: "toString (Num 50) = ''50''"
    by (simp add: dbl str)
  from p t assms show ?thesis
    by (simp add: progress_badge_def completion_badge_def)
qed

text \<open>C5 at a status with two of four angles verified, once the first refresh has returned.\<close>

theorem C5_two_of_four_witness:
  "progress_badge (cv_run (initial_car_verification ''17'')
      [Mount, StatusResolved (status_2_of_4_complete\<lparr>status := ''pending''\<rparr>)])
     = Some (''warning'', ''50% Complete'')
   \<and> \<not> completion_badge (cv_run (initial_car_verification ''17'')
      [Mount, StatusResolved (status_2_of_4_complete\<lparr>status := ''pending''\<rparr>)])"
proof -
  let ?v = "status_2_of_4_complete\<lparr>status := ''pending''\<rparr>"
  let ?s = "cv_run (initial_car_verification ''17'') [Mount, StatusResolved ?v]"
  have 1: "\<not> isLoading ?s" by (simp add: cv_defs)
  have 2: "verificationStatus ?s = Some ?v" by (simp add: cv_defs)
  have 3: "total_angles ?v = 4" by (simp add: status_2_of_4_complete_def)
  have 4: "verified_angles ?v = 2" by (simp add: status_2_of_4_complete_def)
  show ?thesis
    using C5_two_of_four [OF 1 2 3 4]
    by simp
qed

text \<open>
  The claim C5 as written fails at a record with two of four angles verified whose status
  field is "complete": the progress is 50 and the "Verification Complete" badge is rendered.
\<close>

theorem C5_badge_below_100_counterexample:
  "overallProgress (verificationStatus (cv_run (initial_car_verification ''17'')
      [Mount, StatusResolved status_2_of_4_complete])) = Num 50
   \<and> completion_badge (cv_run (initial_car_verification ''17'')
      [Mount, StatusResolved status_2_of_4_complete])"
  by (simp add: cv_defs overallProgress_Some completion_badge_def status_2_of_4_complete_def dbl)

section \<open>Who marks an angle verified\<close>

text \<open>
  C10: a step of the component other than the arrival of a status response leaves the cached
  verification status, and with it every angle's verified flag, as it was; this includes the
  arrival of a successful upload. The arrival of a status response puts the server's record
  in place of the cached one as a whole, and an angle's flag is then the one in that record.
\<close>

theorem C10_only_refresh_changes_status:
  "((\<forall>d. e \<noteq> StatusResolved d) \<longrightarrow>
       verificationStatus (cv_step s e) = verificationStatus s
     \<and> isVerified (cv_step s e) angle = isVerified s angle)
   \<and> verificationStatus (cv_step s (StatusResolved d)) = Some d
   \<and> isVerified (cv_step s (StatusResolved d)) angle
       = (case angles d angle of None \<Rightarrow> False | Some a \<Rightarrow> verified a)"
  by (cases e) (simp_all add: isVerified_def fetchVerificationStatus_def
      fetchVerificationStatus_resolved_def fetchVerificationStatus_rejected_def onChange_def
      handleFileUpload_def handleFileUpload_resolved_def handleFileUpload_rejected_def
      split: option.splits)

text \<open>
  C10 at a successful upload of the front image while the cached record has it pending: the
  flag stays off until the next status response, which here reports the angle verified.
\<close>

theorem C10_only_refresh_changes_status_witness:
  "\<not> isVerified (cv_step (cv_run (initial_car_verification ''17'')
         [Mount, StatusResolved status_front_pending]) (UploadResolved ''front'')) ''front''
   \<and> isVerified (cv_step (cv_step (cv_run (initial_car_verification ''17'')
         [Mount, StatusResolved status_front_pending]) (UploadResolved ''front''))
         (StatusResolved status_front_verified)) ''front''"
proof -
  let ?s = "cv_run (initial_car_verification ''17'') [Mount, StatusResolved status_front_pending]"
  have h: "\<forall>d. UploadResolved ''front'' \<noteq> StatusResolved d" by simp
  have p: "\<not> isVerified ?s ''front''"
    by (simp add: cv_defs isVerified_def status_front_pending_def)
  show ?thesis
    using C10_only_refresh_changes_status [of "UploadResolved ''front''" ?s "''front''"
        status_front_verified] h p
    by (simp add: status_front_verified_def isVerified_def fetchVerificationStatus_resolved_def)
qed

end
